theory Spec2Isabelle
  imports Complex_Main
begin

section \<open>Random art: expression trees, their evaluation and their random generation\<close>

text \<open>
  A shallow embedding of \<^verbatim>\<open>randomart.py\<close>. Python floats are read as real numbers
  (so overflow, infinities and NaN are outside the model), Python exceptions are values
  of the type \<open>error\<close>, and a function that can raise returns \<open>error + 'a\<close> with
  \<open>Inl\<close> for the exception.
\<close>

datatype error = ZeroDivisionError | TypeError | ValueError | IndexError

type_synonym color = "real \<times> real \<times> real"

subsection \<open>Utility functions\<close>

text \<open>\<^verbatim>\<open>average(c1, c2, w=0.5)\<close>; the default of \<open>w\<close> is passed by the callers.\<close>

definition average :: "color \<Rightarrow> color \<Rightarrow> real \<Rightarrow> color" where
  "average c1 c2 w =
     (case c1 of (r1, g1, b1) \<Rightarrow>
       (case c2 of (r2, g2, b2) \<Rightarrow>
         (w * r1 + (1 - w) * r2, w * g1 + (1 - w) * g2, w * b1 + (1 - w) * b2)))"

text \<open>Python's \<^verbatim>\<open>int(z)\<close> of a float rounds towards zero.\<close>

definition py_int :: "real \<Rightarrow> int" where
  "py_int z = (if z < 0 then \<lceil>z\<rceil> else \<lfloor>z\<rfloor>)"

text \<open>
  \<^verbatim>\<open>'%02x' % n\<close>: lower-case hexadecimal digits, padded with zeros to two characters;
  a negative number prints its sign and then its digits.
\<close>

definition hex_digit :: "nat \<Rightarrow> char" where
  "hex_digit d = ''0123456789abcdef'' ! d"

fun hex_digits :: "nat \<Rightarrow> string" where
  "hex_digits n =
     (if n < 16 then [hex_digit n] else hex_digits (n div 16) @ [hex_digit (n mod 16)])"

definition format_02x :: "int \<Rightarrow> string" where
  "format_02x n =
     (let ds = hex_digits (nat \<bar>n\<bar>)
      in if n < 0 then CHR ''-'' # ds else replicate (2 - length ds) CHR ''0'' @ ds)"

definition rgb :: "real \<Rightarrow> real \<Rightarrow> real \<Rightarrow> string" where
  "rgb r g b =
     (let u = max 0 (min 255 (py_int (128 * (r + 1))));
          v = max 0 (min 255 (py_int (128 * (g + 1))));
          w = max 0 (min 255 (py_int (128 * (b + 1))))
      in ''#'' @ format_02x u @ format_02x v @ format_02x w)"

text \<open>Python's \<^verbatim>\<open>/\<close> and \<^verbatim>\<open>%\<close> raise when the divisor is zero; the remainder
  has the sign of the divisor.\<close>

definition py_truediv :: "real \<Rightarrow> real \<Rightarrow> error + real" where
  "py_truediv a b = (if b = 0 then Inl ZeroDivisionError else Inr (a / b))"

definition py_mod :: "real \<Rightarrow> real \<Rightarrow> error + real" where
  "py_mod a b =
     (if b = 0 then Inl ZeroDivisionError else Inr (a - b * of_int \<lfloor>a / b\<rfloor>))"

definition well :: "real \<Rightarrow> error + real" where
  "well x =
     (case py_truediv 2 ((1 + x * x) ^ 8) of Inl err \<Rightarrow> Inl err | Inr q \<Rightarrow> Inr (1 - q))"

definition tent :: "real \<Rightarrow> real" where
  "tent x = 1 - 2 * \<bar>x\<bar>"

subsection \<open>Expression trees\<close>

text \<open>
  One constructor per class, carrying the fields its \<^verbatim>\<open>__init__\<close> sets:
  \<open>Constant c\<close>, \<open>Sin e phase freq\<close>, \<open>Level treshold level e1 e2\<close>, \<open>Mix w e1 e2\<close>.
\<close>

datatype expr =
    VariableX
  | VariableY
  | Constant color
  | Sum expr expr
  | Product expr expr
  | Mod expr expr
  | Well expr
  | Tent expr
  | Sin expr real real
  | Level real expr expr expr
  | Mix expr expr expr

text \<open>
  The \<^verbatim>\<open>eval\<close> methods. An exception of a subexpression propagates; only the three
  remainders of \<open>Mod\<close> stand inside its \<^verbatim>\<open>try\<close>, whose \<^verbatim>\<open>except\<close> returns
  \<open>(0, 0, 0)\<close>.
\<close>

fun eval :: "expr \<Rightarrow> real \<Rightarrow> real \<Rightarrow> error + color" where
  "eval VariableX x y = Inr (x, x, x)"
| "eval VariableY x y = Inr (y, y, y)"
| "eval (Constant c) x y = Inr c"
| "eval (Sum e1 e2) x y =
     (case eval e1 x y of Inl err \<Rightarrow> Inl err | Inr c1 \<Rightarrow>
       (case eval e2 x y of Inl err \<Rightarrow> Inl err | Inr c2 \<Rightarrow>
          Inr (average c1 c2 0.5)))"
| "eval (Product e1 e2) x y =
     (case eval e1 x y of Inl err \<Rightarrow> Inl err | Inr (r1, g1, b1) \<Rightarrow>
       (case eval e2 x y of Inl err \<Rightarrow> Inl err | Inr (r2, g2, b2) \<Rightarrow>
          Inr (r1 * r2, g1 * g2, b1 * b2)))"
| "eval (Mod e1 e2) x y =
     (case eval e1 x y of Inl err \<Rightarrow> Inl err | Inr (r1, g1, b1) \<Rightarrow>
       (case eval e2 x y of Inl err \<Rightarrow> Inl err | Inr (r2, g2, b2) \<Rightarrow>
         (case py_mod r1 r2 of Inl err \<Rightarrow> Inr (0, 0, 0) | Inr r3 \<Rightarrow>
           (case py_mod g1 g2 of Inl err \<Rightarrow> Inr (0, 0, 0) | Inr g3 \<Rightarrow>
             (case py_mod b1 b2 of Inl err \<Rightarrow> Inr (0, 0, 0) | Inr b3 \<Rightarrow>
                Inr (r3, g3, b3))))))"
| "eval (Well e) x y =
     (case eval e x y of Inl err \<Rightarrow> Inl err | Inr (r, g, b) \<Rightarrow>
       (case well r of Inl err \<Rightarrow> Inl err | Inr r' \<Rightarrow>
         (case well g of Inl err \<Rightarrow> Inl err | Inr g' \<Rightarrow>
           (case well b of Inl err \<Rightarrow> Inl err | Inr b' \<Rightarrow>
              Inr (r', g', b')))))"
| "eval (Tent e) x y =
     (case eval e x y of Inl err \<Rightarrow> Inl err | Inr (r, g, b) \<Rightarrow>
        Inr (tent r, tent g, tent b))"
| "eval (Sin e phase freq) x y =
     (case eval e x y of Inl err \<Rightarrow> Inl err | Inr (r1, g1, b1) \<Rightarrow>
        Inr (sin (phase + freq * r1), sin (phase + freq * g1), sin (phase + freq * b1)))"
| "eval (Level treshold level e1 e2) x y =
     (case eval level x y of Inl err \<Rightarrow> Inl err | Inr (r1, g1, b1) \<Rightarrow>
       (case eval e1 x y of Inl err \<Rightarrow> Inl err | Inr (r2, g2, b2) \<Rightarrow>
         (case eval e2 x y of Inl err \<Rightarrow> Inl err | Inr (r3, g3, b3) \<Rightarrow>
            Inr (if r1 < treshold then r2 else r3,
                 if g1 < treshold then g2 else g3,
                 if b1 < treshold then b2 else b3))))"
| "eval (Mix w e1 e2) x y =
     (case eval w x y of Inl err \<Rightarrow> Inl err | Inr cw \<Rightarrow>
       (let wt = 0.5 * (fst cw + 1.0) in
         (case eval e1 x y of Inl err \<Rightarrow> Inl err | Inr c1 \<Rightarrow>
           (case eval e2 x y of Inl err \<Rightarrow> Inl err | Inr c2 \<Rightarrow>
              Inr (average c1 c2 0.5)))))"

text \<open>The class of a node, its subexpressions in the order of its constructor's
  arguments, and all nodes of a tree.\<close>

datatype operator =
    OpVariableX | OpVariableY | OpConstant | OpSum | OpProduct | OpMod
  | OpSin | OpTent | OpWell | OpLevel | OpMix

fun cls :: "expr \<Rightarrow> operator" where
  "cls VariableX = OpVariableX"
| "cls VariableY = OpVariableY"
| "cls (Constant c) = OpConstant"
| "cls (Sum e1 e2) = OpSum"
| "cls (Product e1 e2) = OpProduct"
| "cls (Mod e1 e2) = OpMod"
| "cls (Well e) = OpWell"
| "cls (Tent e) = OpTent"
| "cls (Sin e phase freq) = OpSin"
| "cls (Level treshold level e1 e2) = OpLevel"
| "cls (Mix w e1 e2) = OpMix"

fun children :: "expr \<Rightarrow> expr list" where
  "children VariableX = []"
| "children VariableY = []"
| "children (Constant c) = []"
| "children (Sum e1 e2) = [e1, e2]"
| "children (Product e1 e2) = [e1, e2]"
| "children (Mod e1 e2) = [e1, e2]"
| "children (Well e) = [e]"
| "children (Tent e) = [e]"
| "children (Sin e phase freq) = [e]"
| "children (Level treshold level e1 e2) = [level, e1, e2]"
| "children (Mix w e1 e2) = [w, e1, e2]"

fun nodes :: "expr \<Rightarrow> expr list" where
  "nodes VariableX = [VariableX]"
| "nodes VariableY = [VariableY]"
| "nodes (Constant c) = [Constant c]"
| "nodes (Sum e1 e2) = Sum e1 e2 # nodes e1 @ nodes e2"
| "nodes (Product e1 e2) = Product e1 e2 # nodes e1 @ nodes e2"
| "nodes (Mod e1 e2) = Mod e1 e2 # nodes e1 @ nodes e2"
| "nodes (Well e) = Well e # nodes e"
| "nodes (Tent e) = Tent e # nodes e"
| "nodes (Sin e phase freq) = Sin e phase freq # nodes e"
| "nodes (Level treshold level e1 e2) =
     Level treshold level e1 e2 # nodes level @ nodes e1 @ nodes e2"
| "nodes (Mix w e1 e2) = Mix w e1 e2 # nodes w @ nodes e1 @ nodes e2"

subsection \<open>The operators and their arities\<close>

fun arity :: "operator \<Rightarrow> int" where
  "arity OpVariableX = 0"
| "arity OpVariableY = 0"
| "arity OpConstant = 0"
| "arity OpSum = 2"
| "arity OpProduct = 2"
| "arity OpMod = 2"
| "arity OpWell = 1"
| "arity OpTent = 1"
| "arity OpSin = 1"
| "arity OpLevel = 3"
| "arity OpMix = 3"

definition operators :: "operator list" where
  "operators = [OpVariableX, OpVariableY, OpConstant, OpSum, OpProduct, OpMod,
                OpSin, OpTent, OpWell, OpLevel, OpMix]"

definition operators0 :: "operator list" where
  "operators0 = filter (\<lambda>op. arity op = 0) operators"

definition operators1 :: "operator list" where
  "operators1 = filter (\<lambda>op. arity op > 0) operators"

subsection \<open>The random module\<close>

text \<open>
  The generator of the \<^verbatim>\<open>random\<close> module is global state. It is a tape of raw
  draws and the position of the next one; every call of the library takes one draw.
  \<^verbatim>\<open>choice\<close> indexes its sequence with the draw reduced below the length (and raises
  on an empty sequence), \<^verbatim>\<open>randrange(k)\<close> reduces it below \<open>k\<close> (and raises unless
  \<open>k > 0\<close>), and \<^verbatim>\<open>uniform(a, b)\<close> is \<open>a + (b - a) * random()\<close> with \<open>random()\<close> a
  multiple of \<open>2 ^ -53\<close> in \<open>[0, 1)\<close>. Every outcome the library can produce is the
  outcome of some tape.
\<close>

record rng =
  tape :: "nat \<Rightarrow> nat"
  pos :: nat

definition next_raw :: "rng \<Rightarrow> nat \<times> rng" where
  "next_raw g = (tape g (pos g), g\<lparr>pos := Suc (pos g)\<rparr>)"

definition choice :: "'a list \<Rightarrow> rng \<Rightarrow> error + ('a \<times> rng)" where
  "choice xs g =
     (if xs = [] then Inl IndexError
      else (case next_raw g of (n, g') \<Rightarrow> Inr (xs ! (n mod length xs), g')))"

definition randrange :: "int \<Rightarrow> rng \<Rightarrow> error + (int \<times> rng)" where
  "randrange k g =
     (if k \<le> 0 then Inl ValueError
      else (case next_raw g of (n, g') \<Rightarrow> Inr (int (n mod nat k), g')))"

definition uniform :: "real \<Rightarrow> real \<Rightarrow> rng \<Rightarrow> real \<times> rng" where
  "uniform a b g =
     (case next_raw g of (n, g') \<Rightarrow> (a + (b - a) * (real (n mod 2 ^ 53) / 2 ^ 53), g'))"

subsection \<open>Evaluation with the state of the program written out\<close>

text \<open>
  Python objects are mutable and the generator of the \<^verbatim>\<open>random\<close> module is global, so
  an \<^verbatim>\<open>eval\<close> method could assign to the fields of its node or draw random numbers.
  \<open>eval_state t x y g\<close> is the call \<^verbatim>\<open>t.eval(x, y)\<close> with that state written out: it
  returns the result, the node as the call leaves it and the generator as the call
  leaves it, threading both through the calls on the subexpressions in the order the
  source makes them. No method of the source assigns to a field or calls \<^verbatim>\<open>random\<close>.
\<close>

fun eval_state :: "expr \<Rightarrow> real \<Rightarrow> real \<Rightarrow> rng \<Rightarrow> (error + color) \<times> expr \<times> rng" where
  "eval_state VariableX x y g = (Inr (x, x, x), VariableX, g)"
| "eval_state VariableY x y g = (Inr (y, y, y), VariableY, g)"
| "eval_state (Constant c) x y g = (Inr c, Constant c, g)"
| "eval_state (Sum e1 e2) x y g =
     (case eval_state e1 x y g of
        (Inl err, e1', g1) \<Rightarrow> (Inl err, Sum e1' e2, g1)
      | (Inr c1, e1', g1) \<Rightarrow>
         (case eval_state e2 x y g1 of
            (Inl err, e2', g2) \<Rightarrow> (Inl err, Sum e1' e2', g2)
          | (Inr c2, e2', g2) \<Rightarrow> (Inr (average c1 c2 0.5), Sum e1' e2', g2)))"
| "eval_state (Product e1 e2) x y g =
     (case eval_state e1 x y g of
        (Inl err, e1', g1) \<Rightarrow> (Inl err, Product e1' e2, g1)
      | (Inr (r1, g1', b1), e1', g1) \<Rightarrow>
         (case eval_state e2 x y g1 of
            (Inl err, e2', g2) \<Rightarrow> (Inl err, Product e1' e2', g2)
          | (Inr (r2, g2', b2), e2', g2) \<Rightarrow>
              (Inr (r1 * r2, g1' * g2', b1 * b2), Product e1' e2', g2)))"
| "eval_state (Mod e1 e2) x y g =
     (case eval_state e1 x y g of
        (Inl err, e1', g1) \<Rightarrow> (Inl err, Mod e1' e2, g1)
      | (Inr (r1, g1', b1), e1', g1) \<Rightarrow>
         (case eval_state e2 x y g1 of
            (Inl err, e2', g2) \<Rightarrow> (Inl err, Mod e1' e2', g2)
          | (Inr (r2, g2', b2), e2', g2) \<Rightarrow>
              ((case py_mod r1 r2 of Inl err \<Rightarrow> Inr (0, 0, 0) | Inr r3 \<Rightarrow>
                 (case py_mod g1' g2' of Inl err \<Rightarrow> Inr (0, 0, 0) | Inr g3 \<Rightarrow>
                   (case py_mod b1 b2 of Inl err \<Rightarrow> Inr (0, 0, 0) | Inr b3 \<Rightarrow>
                      Inr (r3, g3, b3)))),
               Mod e1' e2', g2)))"
| "eval_state (Well e) x y g =
     (case eval_state e x y g of
        (Inl err, e', g1) \<Rightarrow> (Inl err, Well e', g1)
      | (Inr (r, g', b), e', g1) \<Rightarrow>
          ((case well r of Inl err \<Rightarrow> Inl err | Inr r' \<Rightarrow>
             (case well g' of Inl err \<Rightarrow> Inl err | Inr g'' \<Rightarrow>
               (case well b of Inl err \<Rightarrow> Inl err | Inr b' \<Rightarrow>
                  Inr (r', g'', b')))),
           Well e', g1))"
| "eval_state (Tent e) x y g =
     (case eval_state e x y g of
        (Inl err, e', g1) \<Rightarrow> (Inl err, Tent e', g1)
      | (Inr (r, g', b), e', g1) \<Rightarrow> (Inr (tent r, tent g', tent b), Tent e', g1))"
| "eval_state (Sin e phase freq) x y g =
     (case eval_state e x y g of
        (Inl err, e', g1) \<Rightarrow> (Inl err, Sin e' phase freq, g1)
      | (Inr (r1, g1', b1), e', g1) \<Rightarrow>
          (Inr (sin (phase + freq * r1), sin (phase + freq * g1'), sin (phase + freq * b1)),
           Sin e' phase freq, g1))"
| "eval_state (Level treshold level e1 e2) x y g =
     (case eval_state level x y g of
        (Inl err, level', g1) \<Rightarrow> (Inl err, Level treshold level' e1 e2, g1)
      | (Inr (r1, g1', b1), level', g1) \<Rightarrow>
         (case eval_state e1 x y g1 of
            (Inl err, e1', g2) \<Rightarrow> (Inl err, Level treshold level' e1' e2, g2)
          | (Inr (r2, g2', b2), e1', g2) \<Rightarrow>
             (case eval_state e2 x y g2 of
                (Inl err, e2', g3) \<Rightarrow> (Inl err, Level treshold level' e1' e2', g3)
              | (Inr (r3, g3', b3), e2', g3) \<Rightarrow>
                  (Inr (if r1 < treshold then r2 else r3,
                        if g1' < treshold then g2' else g3',
                        if b1 < treshold then b2 else b3),
                   Level treshold level' e1' e2', g3))))"
| "eval_state (Mix w e1 e2) x y g =
     (case eval_state w x y g of
        (Inl err, w', g1) \<Rightarrow> (Inl err, Mix w' e1 e2, g1)
      | (Inr cw, w', g1) \<Rightarrow>
         (let wt = 0.5 * (fst cw + 1.0) in
           (case eval_state e1 x y g1 of
              (Inl err, e1', g2) \<Rightarrow> (Inl err, Mix w' e1' e2, g2)
            | (Inr c1, e1', g2) \<Rightarrow>
               (case eval_state e2 x y g2 of
                  (Inl err, e2', g3) \<Rightarrow> (Inl err, Mix w' e1' e2', g3)
                | (Inr c2, e2', g3) \<Rightarrow> (Inr (average c1 c2 0.5), Mix w' e1' e2', g3)))))"

subsection \<open>Generation\<close>

text \<open>\<^verbatim>\<open>[random.randrange(k) for l in range(n)]\<close>\<close>

fun randrange_list :: "nat \<Rightarrow> int \<Rightarrow> rng \<Rightarrow> error + (int list \<times> rng)" where
  "randrange_list 0 k g = Inr ([], g)"
| "randrange_list (Suc n) k g =
     (case randrange k g of Inl err \<Rightarrow> Inl err | Inr (j, g1) \<Rightarrow>
       (case randrange_list n k g1 of Inl err \<Rightarrow> Inl err | Inr (js, g2) \<Rightarrow>
          Inr (j # js, g2)))"

text \<open>
  \<^verbatim>\<open>op(*args)\<close>: the call of a class with a list of arguments. A number of arguments
  other than the one \<^verbatim>\<open>__init__\<close> takes is a \<^verbatim>\<open>TypeError\<close>. The constructors of
  \<open>Constant\<close>, \<open>Sin\<close> and \<open>Level\<close> draw their parameters.
\<close>

fun new_node :: "operator \<Rightarrow> expr list \<Rightarrow> rng \<Rightarrow> error + (expr \<times> rng)" where
  "new_node OpVariableX args g =
     (case args of [] \<Rightarrow> Inr (VariableX, g) | _ \<Rightarrow> Inl TypeError)"
| "new_node OpVariableY args g =
     (case args of [] \<Rightarrow> Inr (VariableY, g) | _ \<Rightarrow> Inl TypeError)"
| "new_node OpConstant args g =
     (case args of
        [] \<Rightarrow>
          (case uniform 0 1 g of (c1, g1) \<Rightarrow>
            (case uniform 0 1 g1 of (c2, g2) \<Rightarrow>
              (case uniform 0 1 g2 of (c3, g3) \<Rightarrow>
                 Inr (Constant (c1, c2, c3), g3))))
      | _ \<Rightarrow> Inl TypeError)"
| "new_node OpSum args g =
     (case args of [e1, e2] \<Rightarrow> Inr (Sum e1 e2, g) | _ \<Rightarrow> Inl TypeError)"
| "new_node OpProduct args g =
     (case args of [e1, e2] \<Rightarrow> Inr (Product e1 e2, g) | _ \<Rightarrow> Inl TypeError)"
| "new_node OpMod args g =
     (case args of [e1, e2] \<Rightarrow> Inr (Mod e1 e2, g) | _ \<Rightarrow> Inl TypeError)"
| "new_node OpWell args g =
     (case args of [e] \<Rightarrow> Inr (Well e, g) | _ \<Rightarrow> Inl TypeError)"
| "new_node OpTent args g =
     (case args of [e] \<Rightarrow> Inr (Tent e, g) | _ \<Rightarrow> Inl TypeError)"
| "new_node OpSin args g =
     (case args of
        [e] \<Rightarrow>
          (case uniform 0 pi g of (phase, g1) \<Rightarrow>
            (case uniform 1.0 6.0 g1 of (freq, g2) \<Rightarrow>
               Inr (Sin e phase freq, g2)))
      | _ \<Rightarrow> Inl TypeError)"
| "new_node OpLevel args g =
     (case args of
        [level, e1, e2] \<Rightarrow>
          (case uniform (- 1.0) 1.0 g of (treshold, g1) \<Rightarrow>
             Inr (Level treshold level e1 e2, g1))
      | _ \<Rightarrow> Inl TypeError)"
| "new_node OpMix args g =
     (case args of [w, e1, e2] \<Rightarrow> Inr (Mix w e1 e2, g) | _ \<Rightarrow> Inl TypeError)"

text \<open>
  \<^verbatim>\<open>generate(k)\<close>. \<open>gen_args k js i args g\<close> is the \<^verbatim>\<open>for\<close> loop over the sorted
  draws \<open>js\<close> still to visit, with the loop variables \<open>i\<close> and \<open>args\<close>, followed by the
  \<^verbatim>\<open>args.append(generate(k - 1 - i))\<close> after the loop.
\<close>

function generate :: "int \<Rightarrow> rng \<Rightarrow> error + (expr \<times> rng)"
  and gen_args :: "int \<Rightarrow> int list \<Rightarrow> int \<Rightarrow> expr list \<Rightarrow> rng \<Rightarrow> error + (expr list \<times> rng)"
where
  "generate k g =
     (if k \<le> 0 then
        (case choice operators0 g of Inl err \<Rightarrow> Inl err | Inr (op, g1) \<Rightarrow>
           new_node op [] g1)
      else
        (case choice operators1 g of Inl err \<Rightarrow> Inl err | Inr (op, g1) \<Rightarrow>
          (case randrange_list (nat (arity op - 1)) k g1 of Inl err \<Rightarrow> Inl err
           | Inr (js, g2) \<Rightarrow>
            (case gen_args k (sort js) 0 [] g2 of Inl err \<Rightarrow> Inl err
             | Inr (args, g3) \<Rightarrow> new_node op args g3))))"
| "gen_args k [] i args g =
     (case generate (k - 1 - i) g of Inl err \<Rightarrow> Inl err | Inr (e, g') \<Rightarrow>
        Inr (args @ [e], g'))"
| "gen_args k (j # js) i args g =
     (case generate (j - i) g of Inl err \<Rightarrow> Inl err | Inr (e, g') \<Rightarrow>
        gen_args k js j (args @ [e]) g')"
  by pat_completeness auto

text \<open>The budgets the loop of \<open>gen_args\<close> passes to \<open>generate\<close>, in order, and the
  largest of them.\<close>

fun child_budgets :: "int \<Rightarrow> int \<Rightarrow> int list \<Rightarrow> int list" where
  "child_budgets k i [] = [k - 1 - i]"
| "child_budgets k i (j # js) = (j - i) # child_budgets k j js"

fun max_budget :: "int \<Rightarrow> int \<Rightarrow> int list \<Rightarrow> int" where
  "max_budget k i [] = k - 1 - i"
| "max_budget k i (j # js) = max (j - i) (max_budget k j js)"

text \<open>Generating one subexpression for each budget of a list, from left to right.\<close>

fun gen_seq :: "int list \<Rightarrow> expr list \<Rightarrow> rng \<Rightarrow> error + (expr list \<times> rng)" where
  "gen_seq [] args g = Inr (args, g)"
| "gen_seq (b # bs) args g =
     (case generate b g of Inl err \<Rightarrow> Inl err | Inr (e, g') \<Rightarrow>
        gen_seq bs (args @ [e]) g')"

subsection \<open>The specification's formulas\<close>

text \<open>The colour mapper's channel as the specification writes it:
  \<open>clamp(0, 255, floor(128 * (v + 1)))\<close>.\<close>

definition clamp_floor :: "real \<Rightarrow> int" where
  "clamp_floor v = max 0 (min 255 \<lfloor>128 * (v + 1)\<rfloor>)"

text \<open>The budgets as the specification writes them: with the cut points
  \<open>c\<^sub>1 \<le> \<dots> \<le> c\<^sub>n\<close> and \<open>c\<^sub>0 = 0\<close>, child \<open>i\<close> gets \<open>c\<^sub>i - c\<^sub>i\<^sub>-\<^sub>1\<close> and the last child
  gets \<open>k - 1 - c\<^sub>n\<close>.\<close>

definition spec_budgets :: "int \<Rightarrow> int list \<Rightarrow> int list" where
  "spec_budgets k cs =
     map (\<lambda>n. (0 # cs) ! Suc n - (0 # cs) ! n) [0..<length cs] @ [k - 1 - last (0 # cs)]"

section \<open>Properties\<close>

subsection \<open>Utility functions\<close>

declare hex_digits.simps [simp del]

lemma well_closed_form: "well v = Inr (1 - 2 / (1 + v * v) ^ 8)"
proof -
  have "0 < 1 + v * v"
    by (rule add_pos_nonneg) simp_all
  then have "(1 + v * v) ^ 8 \<noteq> 0"
    by simp
  then show ?thesis
    by (simp add: well_def py_truediv_def)
qed

lemma clamp_py_int: "max 0 (min 255 (py_int z)) = max 0 (min 255 \<lfloor>z\<rfloor>)"
proof (cases "z < 0")
  case True
  then have "\<lceil>z\<rceil> \<le> 0" and "\<lfloor>z\<rfloor> \<le> 0"
    by (simp_all add: ceiling_le_iff floor_le_iff)
  then show ?thesis
    using True by (simp add: py_int_def)
next
  case False
  then show ?thesis
    by (simp add: py_int_def)
qed

text \<open>
  Claim C3, as stated: \<open>well(0) == 1\<close>, where \<open>well(v) = 1 - 2 / (1 + v\<^sup>2)\<^sup>8\<close>. The
  formula gives \<open>1 - 2 / 1 = -1\<close> at \<open>0\<close>: the function is a well, lowest at \<open>0\<close>,
  and the value \<open>1\<close> is not what the code returns there.
\<close>

theorem well_zero_not_one: "well 0 \<noteq> Inr 1"
  by (simp add: well_closed_form)

text \<open>
  Claim C3, amended: \<open>well(0) == -1\<close>, where \<open>well(v) = 1 - 2 / (1 + v\<^sup>2)\<^sup>8\<close>.
\<close>

theorem well_zero: "well 0 = Inr (- 1)"
  by (simp add: well_def py_truediv_def)

text \<open>
  Claim C7: for real channel values \<open>r\<close>, \<open>g\<close>, \<open>b\<close> the colour mapper prints the
  channels \<open>clamp(0, 255, floor(128 * (v + 1)))\<close>, each between \<open>0\<close> and \<open>255\<close>
  (the code truncates towards zero where the specification takes the floor; after
  clamping at \<open>0\<close> the two agree). Values outside \<open>[-1, 1]\<close> are clamped:
  \<open>(-5, -5, -5)\<close> gives the least code, \<open>(5, 5, 5)\<close> the greatest.
\<close>

theorem rgb_clamp_floor:
  "rgb r g b = ''#'' @ format_02x (clamp_floor r) @ format_02x (clamp_floor g)
                   @ format_02x (clamp_floor b)
   \<and> 0 \<le> clamp_floor v \<and> clamp_floor v \<le> 255
   \<and> clamp_floor (- 5) = 0 \<and> rgb (- 5) (- 5) (- 5) = ''#000000''
   \<and> clamp_floor 5 = 255 \<and> rgb 5 5 5 = ''#ffffff''"
proof -
  have "rgb r g b = ''#'' @ format_02x (clamp_floor r) @ format_02x (clamp_floor g)
                        @ format_02x (clamp_floor b)"
    by (simp add: rgb_def clamp_floor_def clamp_py_int)
  moreover have "0 \<le> clamp_floor v \<and> clamp_floor v \<le> 255"
    by (simp add: clamp_floor_def)
  moreover have "clamp_floor (- 5) = 0" and "clamp_floor 5 = 255"
    by (simp_all add: clamp_floor_def)
  moreover have "rgb (- 5) (- 5) (- 5) = ''#000000''"
    by (simp add: rgb_def py_int_def format_02x_def hex_digits.simps hex_digit_def)
  moreover have "rgb 5 5 5 = ''#ffffff''"
    by (simp add: rgb_def py_int_def format_02x_def hex_digits.simps hex_digit_def)
  ultimately show ?thesis
    by simp
qed

subsection \<open>Evaluation\<close>

text \<open>Over the reals no \<^verbatim>\<open>eval\<close> raises: the divisor of \<open>well\<close> is at least \<open>1\<close>,
  and \<open>Mod\<close> catches its own failure.\<close>

lemma eval_returns: "\<exists>c. eval e x y = Inr c"
  by (induction e)
    (auto simp: well_closed_form py_mod_def average_def split: sum.splits prod.splits)

lemma eval_returns_triple: "\<exists>r g b. eval e x y = Inr (r, g, b)"
  using eval_returns [of e x y] by (metis prod_cases3)

text \<open>
  Claim C1: for every \<open>Mod\<close> node and all real coordinates, both children return
  triples; the remainder of a channel fails exactly when the second child's channel is
  \<open>0\<close>; if any of the three fails, \<open>eval\<close> returns \<open>(0, 0, 0)\<close> for the whole triple
  and no error reaches the caller; otherwise it returns the channel-wise remainder of the
  first child's triple by the second child's.
\<close>

theorem mod_eval_fallback:
  "\<exists>r1 g1 b1 r2 g2 b2.
     eval e1 x y = Inr (r1, g1, b1) \<and> eval e2 x y = Inr (r2, g2, b2)
     \<and> (py_mod r1 r2 = Inl ZeroDivisionError) = (r2 = 0)
     \<and> (py_mod g1 g2 = Inl ZeroDivisionError) = (g2 = 0)
     \<and> (py_mod b1 b2 = Inl ZeroDivisionError) = (b2 = 0)
     \<and> eval (Mod e1 e2) x y =
         Inr (if r2 = 0 \<or> g2 = 0 \<or> b2 = 0 then (0, 0, 0)
              else (r1 - r2 * of_int \<lfloor>r1 / r2\<rfloor>,
                    g1 - g2 * of_int \<lfloor>g1 / g2\<rfloor>,
                    b1 - b2 * of_int \<lfloor>b1 / b2\<rfloor>))"
proof -
  obtain r1 g1 b1 where c1: "eval e1 x y = Inr (r1, g1, b1)"
    using eval_returns_triple by blast
  obtain r2 g2 b2 where c2: "eval e2 x y = Inr (r2, g2, b2)"
    using eval_returns_triple by blast
  have "eval (Mod e1 e2) x y =
         Inr (if r2 = 0 \<or> g2 = 0 \<or> b2 = 0 then (0, 0, 0)
              else (r1 - r2 * of_int \<lfloor>r1 / r2\<rfloor>,
                    g1 - g2 * of_int \<lfloor>g1 / g2\<rfloor>,
                    b1 - b2 * of_int \<lfloor>b1 / b2\<rfloor>))"
    by (simp add: c1 c2 py_mod_def)
  moreover have "(py_mod r1 r2 = Inl ZeroDivisionError) = (r2 = 0)"
    and "(py_mod g1 g2 = Inl ZeroDivisionError) = (g2 = 0)"
    and "(py_mod b1 b2 = Inl ZeroDivisionError) = (b2 = 0)"
    by (simp_all add: py_mod_def)
  ultimately show ?thesis
    using c1 c2 by blast
qed

text \<open>
  Claim C2: for every \<open>Mix\<close> node and all real coordinates, \<open>eval\<close> returns the
  channel-wise mean, with weights \<open>0.5\<close> and \<open>0.5\<close>, of the triples of its second
  and third child; the result is the same whatever the first (weight) child is, so the
  weight computed from its red channel is never applied.
\<close>

theorem mix_eval_unweighted:
  "\<exists>r1 g1 b1 r2 g2 b2.
     eval e1 x y = Inr (r1, g1, b1) \<and> eval e2 x y = Inr (r2, g2, b2)
     \<and> eval (Mix w e1 e2) x y = Inr (average (r1, g1, b1) (r2, g2, b2) 0.5)
     \<and> eval (Mix w e1 e2) x y = Inr ((r1 + r2) / 2, (g1 + g2) / 2, (b1 + b2) / 2)
     \<and> eval (Mix w' e1 e2) x y = eval (Mix w e1 e2) x y"
proof -
  obtain r1 g1 b1 where c1: "eval e1 x y = Inr (r1, g1, b1)"
    using eval_returns_triple by blast
  obtain r2 g2 b2 where c2: "eval e2 x y = Inr (r2, g2, b2)"
    using eval_returns_triple by blast
  obtain cw where cw: "eval w x y = Inr cw"
    using eval_returns by blast
  obtain cw' where cw': "eval w' x y = Inr cw'"
    using eval_returns by blast
  have m: "eval (Mix w e1 e2) x y = Inr (average (r1, g1, b1) (r2, g2, b2) 0.5)"
    by (simp add: c1 c2 cw)
  have m': "eval (Mix w' e1 e2) x y = Inr (average (r1, g1, b1) (r2, g2, b2) 0.5)"
    by (simp add: c1 c2 cw')
  have a: "average (r1, g1, b1) (r2, g2, b2) 0.5 = ((r1 + r2) / 2, (g1 + g2) / 2, (b1 + b2) / 2)"
    by (simp add: average_def field_simps)
  show ?thesis
    using c1 c2 m m' a by auto
qed

text \<open>
  Claim C10: for every \<open>Sin\<close> node and all real coordinates, whatever triple
  \<open>(v1, v2, v3)\<close> its child returns, the node returns
  \<open>sin (phase + freq * v)\<close> in each channel, and each channel lies in \<open>[-1, 1]\<close>.
\<close>

theorem sin_eval_bounded:
  "\<exists>v1 v2 v3 r g b.
     eval e x y = Inr (v1, v2, v3)
     \<and> eval (Sin e phase freq) x y = Inr (r, g, b)
     \<and> r = sin (phase + freq * v1) \<and> g = sin (phase + freq * v2)
     \<and> b = sin (phase + freq * v3)
     \<and> - 1 \<le> r \<and> r \<le> 1 \<and> - 1 \<le> g \<and> g \<le> 1 \<and> - 1 \<le> b \<and> b \<le> 1"
proof -
  obtain v1 v2 v3 where c: "eval e x y = Inr (v1, v2, v3)"
    using eval_returns_triple by blast
  have "eval (Sin e phase freq) x y =
          Inr (sin (phase + freq * v1), sin (phase + freq * v2), sin (phase + freq * v3))"
    by (simp add: c)
  then show ?thesis
    using c by simp
qed

lemma eval_state_frame: "eval_state t x y g = (eval t x y, t, g)"
  by (induction t arbitrary: g) (auto split: sum.splits prod.splits)

text \<open>
  Claim C9: evaluation is deterministic and changes nothing. For every tree (so for every
  generated one) and all coordinates, the call returns the triple \<open>eval t x y\<close>, which
  does not depend on the state of the random generator, and leaves the node, with all
  its subexpressions and their stored parameters, and the random generator as they were;
  a second call on the state the first one leaves returns the same triple.
\<close>

theorem eval_state_unchanged:
  "eval_state t x y g = (eval t x y, t, g)
   \<and> (\<exists>c. eval t x y = Inr c)
   \<and> fst (eval_state t x y g') = fst (eval_state t x y g)
   \<and> (case eval_state t x y g of (res, t', g') \<Rightarrow> eval_state t' x y g' = (res, t, g))"
  using eval_returns [of t x y] by (simp add: eval_state_frame)

subsection \<open>Generation\<close>

lemma randrange_returns:
  "0 < k \<Longrightarrow> randrange k g = Inr (int (tape g (pos g) mod nat k), g\<lparr>pos := Suc (pos g)\<rparr>)"
  by (simp add: randrange_def next_raw_def)

lemma randrange_range: "randrange k g = Inr (j, g') \<Longrightarrow> 0 \<le> j \<and> j < k"
proof -
  assume a: "randrange k g = Inr (j, g')"
  then have k: "0 < k"
    by (auto simp: randrange_def split: if_splits)
  have "tape g (pos g) mod nat k < nat k"
    using k by simp
  then have "int (tape g (pos g) mod nat k) < k"
    using k by linarith
  then show ?thesis
    using a k by (simp add: randrange_returns)
qed

lemma randrange_list_range:
  "randrange_list n k g = Inr (js, g') \<Longrightarrow>
     list_all (\<lambda>j. 0 \<le> j \<and> j < k) js \<and> length js = n"
  by (induction n arbitrary: g js) (auto split: sum.splits prod.splits dest: randrange_range)

lemma max_budget_bound:
  "0 \<le> i \<Longrightarrow> list_all (\<lambda>j. 0 \<le> j \<and> j < k) js \<Longrightarrow> max_budget k i js \<le> k - 1"
  by (induction js arbitrary: i) auto

text \<open>Termination of \<open>generate\<close>: every budget the loop passes on is at most \<open>k - 1\<close>,
  since the draws are not negative and below \<open>k\<close>.\<close>

termination generate
  apply (relation "measures
      [\<lambda>a. case a of Inl (k, g) \<Rightarrow> 2 * nat k
                     | Inr (k, js, i, args, g) \<Rightarrow> 2 * nat (max_budget k i js) + 1,
       \<lambda>a. case a of Inl (k, g) \<Rightarrow> 0 | Inr (k, js, i, args, g) \<Rightarrow> length js]")
      apply simp_all
  subgoal for k g b op g1 ba js g2
    using max_budget_bound [of 0 k "sort js"]
      randrange_list_range [of "nat (arity op - 1)" k g1 js g2]
    by (auto simp: list_all_iff)
  subgoal by linarith
  subgoal by linarith
  done

declare generate.simps [simp del]

lemma operators0_eq: "operators0 = [OpVariableX, OpVariableY, OpConstant]"
  by (simp add: operators0_def operators_def)

lemma operators1_eq:
  "operators1 = [OpSum, OpProduct, OpMod, OpSin, OpTent, OpWell, OpLevel, OpMix]"
  by (simp add: operators1_def operators_def)

lemma choice_returns:
  "xs \<noteq> [] \<Longrightarrow>
     choice xs g = Inr (xs ! (tape g (pos g) mod length xs), g\<lparr>pos := Suc (pos g)\<rparr>)"
  by (simp add: choice_def next_raw_def)

lemma choice_member: "xs \<noteq> [] \<Longrightarrow> xs ! (n mod length xs) \<in> set xs"
  by simp

lemma randrange_list_returns:
  "0 < k \<Longrightarrow>
     randrange_list n k g =
       Inr (map (\<lambda>m. int (tape g (pos g + m) mod nat k)) [0..<n], g\<lparr>pos := pos g + n\<rparr>)"
  by (induction n arbitrary: g)
    (simp_all add: randrange_returns map_upt_Suc del: upt_Suc)

lemma new_node_returns:
  "length args = nat (arity op) \<Longrightarrow>
     \<exists>t g'. new_node op args g = Inr (t, g') \<and> cls t = op \<and> children t = args"
  by (cases op)
    (auto simp: length_Suc_conv numeral_2_eq_2 numeral_3_eq_3 split: list.splits prod.splits)

lemma generate_gen_args_return:
  "\<exists>t g'. generate k g = Inr (t, g')"
  "\<exists>as g'. gen_args k js i args g = Inr (args @ as, g') \<and> length as = Suc (length js)"
proof (induction k g and k js i args g rule: generate_gen_args.induct)
  case (1 k g)
  show ?case
  proof (cases "k \<le> 0")
    case True
    let ?op = "operators0 ! (tape g (pos g) mod length operators0)"
    have "?op \<in> set operators0"
      by (rule choice_member) (simp add: operators0_eq)
    then have "arity ?op = 0"
      by (simp add: operators0_def)
    then obtain t g' where "new_node ?op [] (g\<lparr>pos := Suc (pos g)\<rparr>) = Inr (t, g')"
      using new_node_returns [of "[]" ?op "g\<lparr>pos := Suc (pos g)\<rparr>"] by auto
    then show ?thesis
      using True by (simp add: generate.simps choice_returns operators0_eq)
  next
    case False
    let ?op = "operators1 ! (tape g (pos g) mod length operators1)"
    let ?g1 = "g\<lparr>pos := Suc (pos g)\<rparr>"
    have ch: "choice operators1 g = Inr (?op, ?g1)"
      by (rule choice_returns) (simp add: operators1_eq)
    have "?op \<in> set operators1"
      by (rule choice_member) (simp add: operators1_eq)
    then have ar: "0 < arity ?op"
      by (simp add: operators1_def)
    obtain js g2 where dr: "randrange_list (nat (arity ?op - 1)) k ?g1 = Inr (js, g2)"
      using randrange_list_returns [of k] False by simp
    then have len: "length js = nat (arity ?op - 1)"
      using randrange_list_range by blast
    obtain as g3 where ga: "gen_args k (sort js) 0 [] g2 = Inr (as, g3)"
      and la: "length as = Suc (length (sort js))"
      using "1.IH" [OF False ch refl dr refl] by auto
    have "length as = nat (arity ?op)"
      using la len ar by simp
    then obtain t g' where "new_node ?op as g3 = Inr (t, g')"
      using new_node_returns by blast
    then show ?thesis
      using False ch dr ga by (simp add: generate.simps)
  qed
next
  case (2 k i args g)
  then show ?case
    by (auto simp: generate.simps)
next
  case (3 k j js i args g)
  from "3.IH"(1) obtain e g1 where e: "generate (j - i) g = Inr (e, g1)"
    by blast
  from "3.IH"(2) [OF e refl] obtain as g' where
    "gen_args k js j (args @ [e]) g1 = Inr ((args @ [e]) @ as, g')" "length as = Suc (length js)"
    by blast
  then show ?case
    using e by (simp add: generate.simps)
qed

lemma gen_args_gen_seq: "gen_args k js i args g = gen_seq (child_budgets k i js) args g"
  by (induction js arbitrary: i args g) (auto simp: generate.simps split: sum.splits)

lemma child_budgets_index:
  "child_budgets k i js =
     map (\<lambda>n. (i # js) ! Suc n - (i # js) ! n) [0..<length js] @ [k - 1 - last (i # js)]"
  by (induction js arbitrary: i) (auto simp: map_upt_Suc simp del: upt_Suc)

lemma child_budgets_spec: "child_budgets k 0 cs = spec_budgets k cs"
  by (simp add: child_budgets_index spec_budgets_def)

lemma generate_leaf:
  "k \<le> 0 \<Longrightarrow>
     generate k g =
       new_node (operators0 ! (tape g (pos g) mod length operators0)) [] (g\<lparr>pos := Suc (pos g)\<rparr>)"
  by (simp add: generate.simps choice_returns operators0_eq)

lemma child_budgets_length: "length (child_budgets k i js) = Suc (length js)"
  by (induction js arbitrary: i) simp_all

lemma child_budgets_less:
  "0 \<le> i \<Longrightarrow> list_all (\<lambda>j. 0 \<le> j \<and> j < k) js \<Longrightarrow>
     list_all (\<lambda>c. c < k) (child_budgets k i js)"
  by (induction js arbitrary: i) auto

lemma child_budgets_nonneg:
  "sorted (i # js) \<Longrightarrow> list_all (\<lambda>j. 0 \<le> j \<and> j < k) (i # js) \<Longrightarrow>
     list_all (\<lambda>c. 0 \<le> c) (child_budgets k i js)"
  by (induction js arbitrary: i) auto

lemma gen_seq_returns:
  "\<exists>as g'. gen_seq bs args g = Inr (args @ as, g') \<and> length as = length bs"
proof (induction bs arbitrary: args g)
  case Nil
  then show ?case by simp
next
  case (Cons b bs)
  obtain e g1 where e: "generate b g = Inr (e, g1)"
    using generate_gen_args_return(1) by blast
  obtain as g' where "gen_seq bs (args @ [e]) g1 = Inr ((args @ [e]) @ as, g')"
    and "length as = length bs"
    using Cons.IH by blast
  then show ?case
    using e by simp
qed

lemma generate_node:
  assumes "0 < k"
  shows "\<exists>op g1 js g2 args g3 t g'.
     op = operators1 ! (tape g (pos g) mod length operators1)
     \<and> choice operators1 g = Inr (op, g1)
     \<and> 0 < arity op
     \<and> randrange_list (nat (arity op - 1)) k g1 = Inr (js, g2)
     \<and> js = map (\<lambda>m. int (tape g1 (pos g1 + m) mod nat k)) [0..<nat (arity op - 1)]
     \<and> gen_seq (child_budgets k 0 (sort js)) [] g2 = Inr (args, g3)
     \<and> length args = nat (arity op)
     \<and> new_node op args g3 = Inr (t, g')
     \<and> generate k g = Inr (t, g') \<and> cls t = op \<and> children t = args"
proof -
  let ?op = "operators1 ! (tape g (pos g) mod length operators1)"
  let ?g1 = "g\<lparr>pos := Suc (pos g)\<rparr>"
  let ?js = "map (\<lambda>m. int (tape ?g1 (pos ?g1 + m) mod nat k)) [0..<nat (arity ?op - 1)]"
  let ?g2 = "?g1\<lparr>pos := pos ?g1 + nat (arity ?op - 1)\<rparr>"
  have ch: "choice operators1 g = Inr (?op, ?g1)"
    by (rule choice_returns) (simp add: operators1_eq)
  have "?op \<in> set operators1"
    by (rule choice_member) (simp add: operators1_eq)
  then have ar: "0 < arity ?op"
    by (simp add: operators1_def)
  have dr: "randrange_list (nat (arity ?op - 1)) k ?g1 = Inr (?js, ?g2)"
    using assms by (rule randrange_list_returns)
  obtain args g3 where gs: "gen_seq (child_budgets k 0 (sort ?js)) [] ?g2 = Inr (args, g3)"
    and la: "length args = length (child_budgets k 0 (sort ?js))"
    using gen_seq_returns [of "child_budgets k 0 (sort ?js)" "[]" ?g2] by auto
  have len: "length args = nat (arity ?op)"
    using la ar by (simp add: child_budgets_length)
  then obtain t g' where nn: "new_node ?op args g3 = Inr (t, g')"
    and ct: "cls t = ?op" "children t = args"
    using new_node_returns by blast
  have "generate k g = Inr (t, g')"
    using assms ch dr gs nn by (simp add: generate.simps gen_args_gen_seq)
  then show ?thesis
    using ch ar dr gs len nn ct by blast
qed

lemma nodes_arity: "list_all (\<lambda>n. int (length (children n)) = arity (cls n)) (nodes t)"
  by (induction t) simp_all

lemma nodes_leaf: "list_all (\<lambda>n. (arity (cls n) = 0) = (children n = [])) (nodes t)"
  by (induction t) simp_all

text \<open>
  Claim C4: for every integer budget \<open>b\<close> and every state of the random generator,
  \<open>generate\<close> returns a tree (the function is total, by the termination proof above, and
  raises nothing). With \<open>b \<le> 0\<close> it makes no recursive call. With \<open>0 < b\<close> its recursive
  calls, those of its loop \<open>gen_args\<close>, are the calls of \<open>gen_seq\<close> on the budgets
  \<open>child_budgets b 0 (sort js)\<close>, one call for each, and each of these budgets is strictly
  smaller than \<open>b\<close>.
\<close>

theorem generate_terminates:
  "(\<exists>t g'. generate b g = Inr (t, g'))
   \<and> (b \<le> 0 \<longrightarrow>
        generate b g =
          (case choice operators0 g of Inl err \<Rightarrow> Inl err | Inr (op, g1) \<Rightarrow> new_node op [] g1))
   \<and> (0 < b \<longrightarrow>
        (\<exists>op g1 js g2.
           choice operators1 g = Inr (op, g1)
           \<and> randrange_list (nat (arity op - 1)) b g1 = Inr (js, g2)
           \<and> gen_args b (sort js) 0 [] g2 = gen_seq (child_budgets b 0 (sort js)) [] g2
           \<and> generate b g =
               (case gen_seq (child_budgets b 0 (sort js)) [] g2 of Inl err \<Rightarrow> Inl err
                | Inr (args, g3) \<Rightarrow> new_node op args g3)
           \<and> list_all (\<lambda>c. c < b) (child_budgets b 0 (sort js))))"
proof (intro conjI impI)
  show "\<exists>t g'. generate b g = Inr (t, g')"
    by (rule generate_gen_args_return(1))
next
  assume "b \<le> 0"
  then show "generate b g =
      (case choice operators0 g of Inl err \<Rightarrow> Inl err | Inr (op, g1) \<Rightarrow> new_node op [] g1)"
    by (simp add: generate.simps)
next
  assume b: "0 < b"
  then obtain op g1 js g2 args g3 t g' where
    ch: "choice operators1 g = Inr (op, g1)"
    and dr: "randrange_list (nat (arity op - 1)) b g1 = Inr (js, g2)"
    and gs: "gen_seq (child_budgets b 0 (sort js)) [] g2 = Inr (args, g3)"
    and nn: "new_node op args g3 = Inr (t, g')"
    and ge: "generate b g = Inr (t, g')"
    using generate_node [of b g] by blast
  have "list_all (\<lambda>j. 0 \<le> j \<and> j < b) (sort js)"
    using randrange_list_range [OF dr] by (simp add: list_all_iff)
  then have "list_all (\<lambda>c. c < b) (child_budgets b 0 (sort js))"
    by (simp add: child_budgets_less)
  moreover have "generate b g =
      (case gen_seq (child_budgets b 0 (sort js)) [] g2 of Inl err \<Rightarrow> Inl err
       | Inr (args, g3) \<Rightarrow> new_node op args g3)"
    using gs nn ge by simp
  moreover have "gen_args b (sort js) 0 [] g2 = gen_seq (child_budgets b 0 (sort js)) [] g2"
    by (rule gen_args_gen_seq)
  ultimately show "\<exists>op g1 js g2.
           choice operators1 g = Inr (op, g1)
           \<and> randrange_list (nat (arity op - 1)) b g1 = Inr (js, g2)
           \<and> gen_args b (sort js) 0 [] g2 = gen_seq (child_budgets b 0 (sort js)) [] g2
           \<and> generate b g =
               (case gen_seq (child_budgets b 0 (sort js)) [] g2 of Inl err \<Rightarrow> Inl err
                | Inr (args, g3) \<Rightarrow> new_node op args g3)
           \<and> list_all (\<lambda>c. c < b) (child_budgets b 0 (sort js))"
    using ch dr by blast
qed

text \<open>The budget \<open>1\<close> with every draw \<open>0\<close> gives \<open>Sum(x, x)\<close> after four draws; the budget
  \<open>0\<close> gives the leaf \<open>x\<close> after one.\<close>

theorem generate_terminates_witness:
  "(0::int) < 1
   \<and> (\<exists>op g1 js g2.
        choice operators1 \<lparr>tape = (\<lambda>n. 0), pos = 0\<rparr> = Inr (op, g1)
        \<and> randrange_list (nat (arity op - 1)) 1 g1 = Inr (js, g2)
        \<and> gen_args 1 (sort js) 0 [] g2 = gen_seq (child_budgets 1 0 (sort js)) [] g2
        \<and> generate 1 \<lparr>tape = (\<lambda>n. 0), pos = 0\<rparr> =
            (case gen_seq (child_budgets 1 0 (sort js)) [] g2 of Inl err \<Rightarrow> Inl err
             | Inr (args, g3) \<Rightarrow> new_node op args g3)
        \<and> list_all (\<lambda>c. c < 1) (child_budgets 1 0 (sort js)))
   \<and> (0::int) \<le> 0
   \<and> generate 0 \<lparr>tape = (\<lambda>n. 0), pos = 0\<rparr> =
        (case choice operators0 \<lparr>tape = (\<lambda>n. 0), pos = 0\<rparr> of Inl err \<Rightarrow> Inl err
         | Inr (op, g1) \<Rightarrow> new_node op [] g1)
   \<and> generate 1 \<lparr>tape = (\<lambda>n. 0), pos = 0\<rparr> =
        Inr (Sum VariableX VariableX, \<lparr>tape = (\<lambda>n. 0), pos = 4\<rparr>)
   \<and> generate 0 \<lparr>tape = (\<lambda>n. 0), pos = 0\<rparr> = Inr (VariableX, \<lparr>tape = (\<lambda>n. 0), pos = 1\<rparr>)"
proof -
  have a: "generate 1 \<lparr>tape = (\<lambda>n. 0), pos = 0\<rparr> =
        Inr (Sum VariableX VariableX, \<lparr>tape = (\<lambda>n. 0), pos = 4\<rparr>)"
    by (simp add: generate.simps choice_returns operators1_eq operators0_eq randrange_returns)
  have b: "generate 0 \<lparr>tape = (\<lambda>n. 0), pos = 0\<rparr> = Inr (VariableX, \<lparr>tape = (\<lambda>n. 0), pos = 1\<rparr>)"
    by (simp add: generate.simps choice_returns operators0_eq)
  show ?thesis
    using generate_terminates [of 1 "\<lparr>tape = (\<lambda>n. 0), pos = 0\<rparr>"]
      generate_terminates [of 0 "\<lparr>tape = (\<lambda>n. 0), pos = 0\<rparr>"] a b
    by simp
qed

text \<open>
  Claim C5: for every integer budget, \<open>generate\<close> returns a tree (no call of a class
  fails on the number of its arguments) in which every node has as many subexpressions as
  the arity of its class, and a node has no subexpression exactly when its class has
  arity \<open>0\<close>.
\<close>

theorem generate_arity:
  "\<exists>t g'. generate b g = Inr (t, g')
     \<and> list_all (\<lambda>n. int (length (children n)) = arity (cls n)) (nodes t)
     \<and> list_all (\<lambda>n. (arity (cls n) = 0) = (children n = [])) (nodes t)"
  using generate_gen_args_return(1) [of b g] nodes_arity nodes_leaf by blast

text \<open>
  Claim C6: for every budget \<open>0 < k\<close>, with \<open>op\<close> the class chosen among those of
  positive arity, \<open>generate\<close> takes \<open>arity op - 1\<close> draws, one raw draw each, all in
  \<open>[0, k)\<close>, sorts them ascending into the cut points, and generates the subexpressions,
  in order, with the budgets of the specification's formula (\<open>spec_budgets\<close>: differences
  of neighbouring cut points, starting from \<open>0\<close>, and \<open>k - 1\<close> minus the last cut point
  for the last one); there are \<open>arity op\<close> of them, and they become the subexpressions of
  the node. Every such budget lies in \<open>[0, k)\<close>. A budget \<open>b \<le> 0\<close>, negative or zero, is
  treated as the budget \<open>0\<close> is and gives a leaf.
\<close>

theorem generate_budget_distribution:
  "(0 < k \<longrightarrow>
     (\<exists>op g1 cs g2 args g3 t g'.
        choice operators1 g = Inr (op, g1) \<and> 0 < arity op
        \<and> randrange_list (nat (arity op - 1)) k g1 = Inr (cs, g2)
        \<and> cs = map (\<lambda>m. int (tape g1 (pos g1 + m) mod nat k)) [0..<nat (arity op - 1)]
        \<and> length cs = nat (arity op - 1)
        \<and> list_all (\<lambda>c. 0 \<le> c \<and> c < k) cs
        \<and> sorted (sort cs) \<and> set (sort cs) = set cs \<and> length (sort cs) = length cs
        \<and> gen_args k (sort cs) 0 [] g2 = gen_seq (spec_budgets k (sort cs)) [] g2
        \<and> gen_seq (spec_budgets k (sort cs)) [] g2 = Inr (args, g3)
        \<and> length args = nat (arity op)
        \<and> length (spec_budgets k (sort cs)) = nat (arity op)
        \<and> list_all (\<lambda>c. 0 \<le> c \<and> c < k) (spec_budgets k (sort cs))
        \<and> new_node op args g3 = Inr (t, g')
        \<and> generate k g = Inr (t, g') \<and> cls t = op \<and> children t = args))
   \<and> (b \<le> 0 \<longrightarrow>
        (\<exists>t g'. generate b g = Inr (t, g') \<and> generate b g = generate 0 g
           \<and> arity (cls t) = 0 \<and> children t = []))"
proof (intro conjI impI)
  assume k: "0 < k"
  then obtain op g1 cs g2 args g3 t g' where
    ch: "choice operators1 g = Inr (op, g1)" and ar: "0 < arity op"
    and dr: "randrange_list (nat (arity op - 1)) k g1 = Inr (cs, g2)"
    and cs: "cs = map (\<lambda>m. int (tape g1 (pos g1 + m) mod nat k)) [0..<nat (arity op - 1)]"
    and gs: "gen_seq (child_budgets k 0 (sort cs)) [] g2 = Inr (args, g3)"
    and la: "length args = nat (arity op)"
    and nn: "new_node op args g3 = Inr (t, g')"
    and ge: "generate k g = Inr (t, g')" and ct: "cls t = op" "children t = args"
    using generate_node [of k g] by blast
  have rg: "list_all (\<lambda>c. 0 \<le> c \<and> c < k) cs" and len: "length cs = nat (arity op - 1)"
    using randrange_list_range [OF dr] by simp_all
  have rs: "list_all (\<lambda>c. 0 \<le> c \<and> c < k) (0 # sort cs)"
    using rg k by (simp add: list_all_iff)
  have so: "sorted (0 # sort cs)"
    using rg by (simp add: list_all_iff)
  have lt: "list_all (\<lambda>c. c < k) (child_budgets k 0 (sort cs))"
    using rs by (simp add: child_budgets_less)
  have ge0: "list_all (\<lambda>c. 0 \<le> c) (child_budgets k 0 (sort cs))"
    using so rs by (rule child_budgets_nonneg)
  have bd: "list_all (\<lambda>c. 0 \<le> c \<and> c < k) (spec_budgets k (sort cs))"
    using lt ge0 by (auto simp: list_all_iff child_budgets_spec [symmetric])
  have sl: "length (spec_budgets k (sort cs)) = nat (arity op)"
    using len ar by (simp add: child_budgets_spec [symmetric] child_budgets_length)
  have ga: "gen_args k (sort cs) 0 [] g2 = gen_seq (spec_budgets k (sort cs)) [] g2"
    by (simp add: gen_args_gen_seq child_budgets_spec)
  have gs': "gen_seq (spec_budgets k (sort cs)) [] g2 = Inr (args, g3)"
    using gs by (simp add: child_budgets_spec)
  show "\<exists>op g1 cs g2 args g3 t g'.
        choice operators1 g = Inr (op, g1) \<and> 0 < arity op
        \<and> randrange_list (nat (arity op - 1)) k g1 = Inr (cs, g2)
        \<and> cs = map (\<lambda>m. int (tape g1 (pos g1 + m) mod nat k)) [0..<nat (arity op - 1)]
        \<and> length cs = nat (arity op - 1)
        \<and> list_all (\<lambda>c. 0 \<le> c \<and> c < k) cs
        \<and> sorted (sort cs) \<and> set (sort cs) = set cs \<and> length (sort cs) = length cs
        \<and> gen_args k (sort cs) 0 [] g2 = gen_seq (spec_budgets k (sort cs)) [] g2
        \<and> gen_seq (spec_budgets k (sort cs)) [] g2 = Inr (args, g3)
        \<and> length args = nat (arity op)
        \<and> length (spec_budgets k (sort cs)) = nat (arity op)
        \<and> list_all (\<lambda>c. 0 \<le> c \<and> c < k) (spec_budgets k (sort cs))
        \<and> new_node op args g3 = Inr (t, g')
        \<and> generate k g = Inr (t, g') \<and> cls t = op \<and> children t = args"
    apply (rule exI [of _ op], rule exI [of _ g1], rule exI [of _ cs], rule exI [of _ g2])
    apply (rule exI [of _ args], rule exI [of _ g3], rule exI [of _ t], rule exI [of _ g'])
    using ch ar dr cs len rg ga gs' la sl bd nn ge ct by simp
next
  assume b: "b \<le> 0"
  let ?op = "operators0 ! (tape g (pos g) mod length operators0)"
  have "?op \<in> set operators0"
    by (rule choice_member) (simp add: operators0_eq)
  then have ar: "arity ?op = 0"
    by (simp add: operators0_def)
  then obtain t g' where nn: "new_node ?op [] (g\<lparr>pos := Suc (pos g)\<rparr>) = Inr (t, g')"
    and ct: "cls t = ?op" "children t = []"
    using new_node_returns [of "[]" ?op "g\<lparr>pos := Suc (pos g)\<rparr>"] by auto
  have "generate b g = Inr (t, g')" and "generate b g = generate 0 g"
    using b nn by (simp_all add: generate_leaf)
  then show "\<exists>t g'. generate b g = Inr (t, g') \<and> generate b g = generate 0 g
           \<and> arity (cls t) = 0 \<and> children t = []"
    using ar ct by auto
qed

text \<open>The budget \<open>5\<close> on the tape \<open>6, 3, 0, 0, \<dots>\<close>: the class is \<open>Level\<close>, the draws are
  \<open>3\<close> and \<open>0\<close>, and the three subexpressions get the budgets \<open>0\<close>, \<open>3\<close> and \<open>1\<close>.\<close>

theorem generate_budget_distribution_witness:
  "(0::int) < 5
   \<and> choice operators1 \<lparr>tape = (\<lambda>n. 6 - 3 * n), pos = 0\<rparr> =
       Inr (OpLevel, \<lparr>tape = (\<lambda>n. 6 - 3 * n), pos = 1\<rparr>)
   \<and> randrange_list (nat (arity OpLevel - 1)) 5 \<lparr>tape = (\<lambda>n. 6 - 3 * n), pos = 1\<rparr> =
       Inr ([3, 0], \<lparr>tape = (\<lambda>n. 6 - 3 * n), pos = 3\<rparr>)
   \<and> spec_budgets 5 (sort [3, 0]) = [0, 3, 1]
   \<and> (\<exists>args g3 t g'.
         gen_seq [0, 3, 1] [] \<lparr>tape = (\<lambda>n. 6 - 3 * n), pos = 3\<rparr> = Inr (args, g3)
         \<and> length args = 3
         \<and> generate 5 \<lparr>tape = (\<lambda>n. 6 - 3 * n), pos = 0\<rparr> = Inr (t, g')
         \<and> cls t = OpLevel \<and> children t = args)
   \<and> (0::int) \<le> 0
   \<and> (\<exists>t g'. generate 0 \<lparr>tape = (\<lambda>n. 6 - 3 * n), pos = 0\<rparr> = Inr (t, g')
         \<and> arity (cls t) = 0 \<and> children t = [])"
proof -
  let ?G = "\<lparr>tape = (\<lambda>n. 6 - 3 * n), pos = 0::nat\<rparr>"
  let ?G1 = "\<lparr>tape = (\<lambda>n. 6 - 3 * n), pos = 1::nat\<rparr>"
  let ?G3 = "\<lparr>tape = (\<lambda>n. 6 - 3 * n), pos = 3::nat\<rparr>"
  have ch: "choice operators1 ?G = Inr (OpLevel, ?G1)"
    by (simp add: choice_returns operators1_eq)
  have dr: "randrange_list (nat (arity OpLevel - 1)) 5 ?G1 = Inr ([3, 0], ?G3)"
    by (simp add: randrange_list_returns upt_rec)
  have sb: "spec_budgets 5 (sort [3, 0]) = [0, 3, 1]"
    by (simp add: spec_budgets_def upt_rec)
  have "(0::int) < 5" and le: "(0::int) \<le> 0"
    by simp_all
  with generate_budget_distribution [of 5 ?G 0]
  obtain op g1 cs g2 args g3 t g' where
    "choice operators1 ?G = Inr (op, g1)"
    "randrange_list (nat (arity op - 1)) 5 g1 = Inr (cs, g2)"
    "gen_seq (spec_budgets 5 (sort cs)) [] g2 = Inr (args, g3)"
    "length args = nat (arity op)"
    "generate 5 ?G = Inr (t, g')" "cls t = op" "children t = args"
    and leaf: "\<exists>t g'. generate 0 ?G = Inr (t, g') \<and> generate 0 ?G = generate 0 ?G
           \<and> arity (cls t) = 0 \<and> children t = []"
    by blast
  then have "\<exists>args g3 t g'.
         gen_seq [0, 3, 1] [] ?G3 = Inr (args, g3) \<and> length args = 3
         \<and> generate 5 ?G = Inr (t, g') \<and> cls t = OpLevel \<and> children t = args"
    using ch dr sb by auto
  then show ?thesis
    using ch dr sb leaf by simp
qed

text \<open>
  Claim C8: for every budget \<open>b \<le> 0\<close>, \<open>generate\<close> returns a node without
  subexpressions whose class is the entry of \<open>operators0\<close> at one index drawn below its
  length; for every budget \<open>0 < b\<close> the class of the root is the entry of \<open>operators1\<close>
  at one index drawn below its length. \<open>operators0\<close> lists exactly the classes of arity \<open>0\<close>
  (\<open>VariableX\<close>, \<open>VariableY\<close>, \<open>Constant\<close>) and \<open>operators1\<close> exactly those of positive
  arity, each class once: an index that is uniform below the length selects uniformly
  among them.
\<close>

theorem generate_root_choice:
  "(b \<le> 0 \<longrightarrow>
      (\<exists>t g'. generate b g = Inr (t, g')
         \<and> cls t = operators0 ! (tape g (pos g) mod length operators0)
         \<and> cls t \<in> set operators0 \<and> children t = []))
   \<and> (0 < b \<longrightarrow>
      (\<exists>t g'. generate b g = Inr (t, g')
         \<and> cls t = operators1 ! (tape g (pos g) mod length operators1)
         \<and> cls t \<in> set operators1))
   \<and> operators0 = [OpVariableX, OpVariableY, OpConstant]
   \<and> set operators0 = {op. arity op = 0} \<and> distinct operators0
   \<and> set operators1 = {op. 0 < arity op} \<and> distinct operators1"
proof (intro conjI impI)
  assume b: "b \<le> 0"
  let ?op = "operators0 ! (tape g (pos g) mod length operators0)"
  have m: "?op \<in> set operators0"
    by (rule choice_member) (simp add: operators0_eq)
  then have "arity ?op = 0"
    by (simp add: operators0_def)
  then obtain t g' where "new_node ?op [] (g\<lparr>pos := Suc (pos g)\<rparr>) = Inr (t, g')"
    and "cls t = ?op" "children t = []"
    using new_node_returns [of "[]" ?op "g\<lparr>pos := Suc (pos g)\<rparr>"] by auto
  then show "\<exists>t g'. generate b g = Inr (t, g')
         \<and> cls t = operators0 ! (tape g (pos g) mod length operators0)
         \<and> cls t \<in> set operators0 \<and> children t = []"
    using b m by (simp add: generate_leaf)
next
  assume "0 < b"
  then obtain op t g' where "op = operators1 ! (tape g (pos g) mod length operators1)"
    and "generate b g = Inr (t, g')" "cls t = op"
    using generate_node [of b g] by blast
  moreover have "operators1 ! (tape g (pos g) mod length operators1) \<in> set operators1"
    by (rule choice_member) (simp add: operators1_eq)
  ultimately show "\<exists>t g'. generate b g = Inr (t, g')
         \<and> cls t = operators1 ! (tape g (pos g) mod length operators1)
         \<and> cls t \<in> set operators1"
    by simp
next
  show "operators0 = [OpVariableX, OpVariableY, OpConstant]"
    by (rule operators0_eq)
next
  have all: "set operators = UNIV"
  proof -
    have "op \<in> set operators" for op
      by (cases op) (simp_all add: operators_def)
    then show ?thesis by blast
  qed
  show "set operators0 = {op. arity op = 0}"
    by (simp add: operators0_def all)
  show "set operators1 = {op. 0 < arity op}"
    by (simp add: operators1_def all)
next
  show "distinct operators0"
    by (simp add: operators0_eq)
next
  show "distinct operators1"
    by (simp add: operators1_eq)
qed

text \<open>On the tape \<open>1, 2, 3, \<dots>\<close> the budget \<open>0\<close> gives the leaf \<open>y\<close>, and the budget \<open>2\<close> a
  \<open>Product\<close>.\<close>

theorem generate_root_choice_witness:
  "(0::int) \<le> 0
   \<and> generate 0 \<lparr>tape = (\<lambda>n. n + 1), pos = 0\<rparr> = Inr (VariableY, \<lparr>tape = (\<lambda>n. n + 1), pos = 1\<rparr>)
   \<and> (\<exists>t g'. generate 0 \<lparr>tape = (\<lambda>n. n + 1), pos = 0\<rparr> = Inr (t, g')
         \<and> cls t = operators0 ! (1 mod length operators0) \<and> children t = [])
   \<and> (0::int) < 2
   \<and> (\<exists>t g'. generate 2 \<lparr>tape = (\<lambda>n. n + 1), pos = 0\<rparr> = Inr (t, g')
         \<and> cls t = operators1 ! (1 mod length operators1) \<and> cls t = OpProduct)"
proof -
  have a: "generate 0 \<lparr>tape = (\<lambda>n. n + 1), pos = 0\<rparr> =
      Inr (VariableY, \<lparr>tape = (\<lambda>n. n + 1), pos = 1\<rparr>)"
    by (simp add: generate_leaf operators0_eq)
  show ?thesis
    using generate_root_choice [of 0 "\<lparr>tape = (\<lambda>n. n + 1), pos = 0\<rparr>"]
      generate_root_choice [of 2 "\<lparr>tape = (\<lambda>n. n + 1), pos = 0\<rparr>"] a
    by (auto simp: operators1_eq)
qed

end
